theory Spec2Isabelle
  imports Main "HOL-Library.Sublist"
begin

section \<open>JavaScript values\<close>

text \<open>
  The action that reaches \<open>executeAction\<close> is the result of \<open>JSON.parse(jsonText) as AIAction\<close>:
  the cast checks nothing at run time, so the executor works on whatever JSON value the
  reply held, and the items of a container are whatever an action put there. The values
  of the model are the JSON values, within these limits: a number is an integer that a
  double holds exactly (the response schema asks for integers); a string is a string of
  ASCII characters; an object occurs at the top level of a reply only, its property
  values being \<open>jsval\<close>s. \<open>JUndefined\<close> is what reading a missing property gives. An array
  is compared by identity in JavaScript, and every array met here is a fresh allocation
  of \<open>JSON.parse\<close> or of a spread, so two arrays are never the same value.
\<close>

datatype jsval = JUndefined | JNull | JBool bool | JNum int | JStr string | JArr "jsval list"

datatype json = JValue jsval | JObject "(string \<times> jsval) list"

datatype error = TypeError

definition bind_e :: "error + 'a \<Rightarrow> ('a \<Rightarrow> error + 'b) \<Rightarrow> error + 'b" where
  "bind_e r f = (case r of Inl e \<Rightarrow> Inl e | Inr x \<Rightarrow> f x)"

text \<open>
  \<open>action.k\<close> on a value other than \<open>null\<close>, for the property names of \<open>AIAction\<close>. The
  list of an object holds its properties, a name being looked up at its first entry;
  a value that is not an object has none of these properties.
\<close>

fun field :: "json \<Rightarrow> string \<Rightarrow> jsval" where
  "field (JObject kvs) k = (case map_of kvs k of Some v \<Rightarrow> v | None \<Rightarrow> JUndefined)"
| "field (JValue v) k = JUndefined"

fun truthy :: "jsval \<Rightarrow> bool" where
  "truthy JUndefined = False"
| "truthy JNull = False"
| "truthy (JBool b) = b"
| "truthy (JNum n) = (n \<noteq> 0)"
| "truthy (JStr s) = (s \<noteq> [])"
| "truthy (JArr xs) = True"

text \<open>\<open>v.length > 0\<close>: a boolean or a number has no \<open>length\<close>, and \<open>undefined > 0\<close> is false.\<close>

fun length_gt0 :: "jsval \<Rightarrow> error + bool" where
  "length_gt0 JUndefined = Inl TypeError"
| "length_gt0 JNull = Inl TypeError"
| "length_gt0 (JBool b) = Inr False"
| "length_gt0 (JNum n) = Inr False"
| "length_gt0 (JStr s) = Inr (0 < length s)"
| "length_gt0 (JArr xs) = Inr (0 < length xs)"

text \<open>\<open>v && v.length > 0\<close>\<close>

definition nonempty :: "jsval \<Rightarrow> bool" where
  "nonempty v = (truthy v \<and> length_gt0 v = Inr True)"

subsection \<open>Strings\<close>

definition digit :: "nat \<Rightarrow> char" where
  "digit n = ''0123456789'' ! (n mod 10)"

function show_nat :: "nat \<Rightarrow> string" where
  "show_nat n = (if n < 10 then [digit n] else show_nat (n div 10) @ [digit n])"
  by pat_completeness auto
termination
  by (relation "measure (\<lambda>n. n)") auto

declare show_nat.simps [simp del]

definition show_int :: "int \<Rightarrow> string" where
  "show_int i = (if i < 0 then CHR ''-'' # show_nat (nat (- i)) else show_nat (nat i))"

fun js_join :: "string \<Rightarrow> string list \<Rightarrow> string" where
  "js_join sep [] = []"
| "js_join sep [x] = x"
| "js_join sep (x # y # ys) = x @ sep @ js_join sep (y # ys)"

text \<open>\<open>String(v)\<close>, as a template literal applies it; an array is joined with commas.\<close>

fun ToString :: "jsval \<Rightarrow> string" where
  "ToString JUndefined = ''undefined''"
| "ToString JNull = ''null''"
| "ToString (JBool b) = (if b then ''true'' else ''false'')"
| "ToString (JNum n) = show_int n"
| "ToString (JStr s) = s"
| "ToString (JArr xs) =
     js_join '','' (map (\<lambda>x. case x of JUndefined \<Rightarrow> [] | JNull \<Rightarrow> [] | _ \<Rightarrow> ToString x) xs)"

text \<open>The string an element contributes to \<open>Array.prototype.join\<close>.\<close>

definition element_string :: "jsval \<Rightarrow> string" where
  "element_string x = (case x of JUndefined \<Rightarrow> [] | JNull \<Rightarrow> [] | _ \<Rightarrow> ToString x)"

text \<open>\<open>v.join(sep)\<close>: only an array has the method.\<close>

definition join :: "jsval \<Rightarrow> string \<Rightarrow> error + string" where
  "join v sep = (case v of JArr xs \<Rightarrow> Inr (js_join sep (map element_string xs)) | _ \<Rightarrow> Inl TypeError)"

definition lower_char :: "char \<Rightarrow> char" where
  "lower_char c =
     (case map_of (zip ''ABCDEFGHIJKLMNOPQRSTUVWXYZ'' ''abcdefghijklmnopqrstuvwxyz'') c of
        Some d \<Rightarrow> d | None \<Rightarrow> c)"

text \<open>\<open>v.toLowerCase()\<close>: only a string has the method.\<close>

definition toLowerCase :: "jsval \<Rightarrow> error + string" where
  "toLowerCase v = (case v of JStr s \<Rightarrow> Inr (map lower_char s) | _ \<Rightarrow> Inl TypeError)"

text \<open>\<open>s.includes(t)\<close>: \<open>t\<close> occurs in \<open>s\<close> as a contiguous run.\<close>

fun str_includes :: "string \<Rightarrow> string \<Rightarrow> bool" where
  "str_includes [] t = (t = [])"
| "str_includes (c # s) t = (prefix t (c # s) \<or> str_includes s t)"

subsection \<open>Spread and Set\<close>

text \<open>\<open>[...v]\<close>: an array gives its elements, a string its characters.\<close>

definition spread :: "jsval \<Rightarrow> error + jsval list" where
  "spread v = (case v of JArr xs \<Rightarrow> Inr xs | JStr s \<Rightarrow> Inr (map (\<lambda>c. JStr [c]) s) | _ \<Rightarrow> Inl TypeError)"

definition same_value :: "jsval \<Rightarrow> jsval \<Rightarrow> bool" where
  "same_value a b = (case a of JArr xs \<Rightarrow> False | _ \<Rightarrow> a = b)"

text \<open>\<open>[...new Set(xs)]\<close>: the first occurrence of every value, in order of insertion.\<close>

definition set_add :: "jsval \<Rightarrow> jsval list \<Rightarrow> jsval list" where
  "set_add x acc = (if list_ex (same_value x) acc then acc else acc @ [x])"

definition new_Set :: "jsval list \<Rightarrow> jsval list" where
  "new_Set xs = fold set_add xs []"

section \<open>The container store\<close>

record container =
  container_id :: int
  items :: jsval

type_synonym updater = "container list \<Rightarrow> error + container list"

text \<open>The seed of \<open>useState\<close> in \<open>App\<close>.\<close>

definition initial_containers :: "container list" where
  "initial_containers =
     [\<lparr>container_id = 1,
        items = JArr [JStr ''Christmas Decorations'', JStr ''Wreaths'', JStr ''Tree Stand'']\<rparr>,
      \<lparr>container_id = 2,
        items = JArr [JStr ''Camping Gear'', JStr ''Tent'', JStr ''Sleeping Bags'']\<rparr>]"

text \<open>\<open>containers.find(c => c.id === n)\<close>; \<open>===\<close> holds for a number equal to the id only.\<close>

definition find_container :: "container list \<Rightarrow> jsval \<Rightarrow> container option" where
  "find_container containers n = find (\<lambda>c. JNum (container_id c) = n) containers"

text \<open>\<open>Math.max(...ns)\<close>, which the source calls on a list that is not empty only.\<close>

fun math_max :: "int list \<Rightarrow> int" where
  "math_max [] = 0"
| "math_max (n # ns) = fold max ns n"

fun map_e :: "('a \<Rightarrow> error + 'b) \<Rightarrow> 'a list \<Rightarrow> error + 'b list" where
  "map_e f [] = Inr []"
| "map_e f (x # xs) = bind_e (f x) (\<lambda>y. bind_e (map_e f xs) (\<lambda>ys. Inr (y # ys)))"

section \<open>The action executor\<close>

text \<open>
  \<open>executeAction\<close> reads the \<open>containers\<close> of the render it was created in, hands React at
  most one update function (\<open>setContainers(prev => ...)\<close>) and returns the response text
  or throws. React applies the update function to the store at the next render; an
  exception of the update function is raised there, outside the handler.
\<close>

record exec_result =
  queued :: "updater option"
  returned :: "error + string"

definition respond :: "string \<Rightarrow> exec_result" where
  "respond s = \<lparr>queued = None, returned = Inr s\<rparr>"

text \<open>\<open>itemsToRemove.some(removeItem => item.toLowerCase().includes(removeItem.toLowerCase()))\<close>\<close>

fun some_includes :: "jsval \<Rightarrow> jsval list \<Rightarrow> error + bool" where
  "some_includes item [] = Inr False"
| "some_includes item (removeItem # rs) =
     bind_e (toLowerCase item) (\<lambda>a. bind_e (toLowerCase removeItem) (\<lambda>b.
       if str_includes a b then Inr True else some_includes item rs))"

definition some_match :: "jsval \<Rightarrow> jsval \<Rightarrow> error + bool" where
  "some_match itemsToRemove item =
     (case itemsToRemove of JArr rs \<Rightarrow> some_includes item rs | _ \<Rightarrow> Inl TypeError)"

text \<open>\<open>updatedItems.filter(item => !itemsToRemove.some(...))\<close>\<close>

fun filter_items :: "jsval \<Rightarrow> jsval list \<Rightarrow> error + jsval list" where
  "filter_items itemsToRemove [] = Inr []"
| "filter_items itemsToRemove (item # rest) =
     bind_e (some_match itemsToRemove item) (\<lambda>m.
       bind_e (filter_items itemsToRemove rest) (\<lambda>kept.
         Inr (if m then kept else item # kept)))"

text \<open>The new item list of the container that \<open>UPDATE_ITEMS\<close> names (lines 60 to 66).\<close>

definition update_items :: "jsval \<Rightarrow> jsval \<Rightarrow> jsval \<Rightarrow> error + jsval list" where
  "update_items its itemsToAdd itemsToRemove =
     bind_e (spread its) (\<lambda>updatedItems.
     bind_e (if nonempty itemsToRemove then filter_items itemsToRemove updatedItems
             else Inr updatedItems) (\<lambda>updatedItems.
       if nonempty itemsToAdd
       then bind_e (spread itemsToAdd) (\<lambda>added. Inr (new_Set (updatedItems @ added)))
       else Inr updatedItems))"

definition update_updater :: "jsval \<Rightarrow> jsval \<Rightarrow> jsval \<Rightarrow> updater" where
  "update_updater n itemsToAdd itemsToRemove prev =
     map_e (\<lambda>c. if JNum (container_id c) = n
                 then bind_e (update_items (items c) itemsToAdd itemsToRemove)
                        (\<lambda>updatedItems. Inr (c\<lparr>items := JArr updatedItems\<rparr>))
                 else Inr c) prev"

definition exec_UPDATE_ITEMS :: "container list \<Rightarrow> json \<Rightarrow> exec_result" where
  \<open>exec_UPDATE_ITEMS containers action =
     (let n = field action ''containerNumber'' in
      if truthy n then
        (case find_container containers n of
           Some c \<Rightarrow>
             (let itemsToAdd = field action ''itemsToAdd'';
                  itemsToRemove = field action ''itemsToRemove''
              in \<lparr>queued = Some (update_updater n itemsToAdd itemsToRemove),
                  returned =
                    bind_e (if nonempty itemsToAdd
                            then bind_e (join itemsToAdd '', '') (\<lambda>s. Inr (''added "'' @ s @ ''"''))
                            else Inr []) (\<lambda>addedText.
                    bind_e (if nonempty itemsToRemove
                            then bind_e (join itemsToRemove '', '') (\<lambda>s. Inr (''removed "'' @ s @ ''"''))
                            else Inr []) (\<lambda>removedText.
                      Inr (if addedText \<noteq> [] \<and> removedText \<noteq> []
                           then ''OK, I've '' @ addedText @ '' to and '' @ removedText
                                @ '' from container '' @ ToString n @ ''.''
                           else if addedText \<noteq> []
                           then ''OK, I've '' @ addedText @ '' to container '' @ ToString n @ ''.''
                           else if removedText \<noteq> []
                           then ''OK, I've '' @ removedText @ '' from container '' @ ToString n @ ''.''
                           else ''OK, no changes were made to container '' @ ToString n @ ''.'')))\<rparr>)
         | None \<Rightarrow> respond (''Sorry, I couldn't find container '' @ ToString n @ ''.''))
      else respond ''Please specify which container to update.'')\<close>

definition exec_LIST_ITEMS :: "container list \<Rightarrow> json \<Rightarrow> exec_result" where
  "exec_LIST_ITEMS containers action =
     (let n = field action ''containerNumber'' in
      if truthy n then
        (case find_container containers n of
           Some c \<Rightarrow>
             \<lparr>queued = None,
              returned =
                bind_e (length_gt0 (items c)) (\<lambda>some.
                bind_e (if some then join (items c) '', '' else Inr ''It's empty'') (\<lambda>content.
                  Inr (''Container '' @ show_int (container_id c) @ '' contains: '' @ content @ ''.'')))\<rparr>
         | None \<Rightarrow> respond (''Sorry, I couldn't find container '' @ ToString n @ ''.''))
      else respond ''Sorry, I couldn't perform that action.'')"

definition exec_LIST_ALL_CONTAINERS :: "container list \<Rightarrow> exec_result" where
  "exec_LIST_ALL_CONTAINERS containers =
     (if 0 < length containers then
        \<lparr>queued = None,
         returned =
           bind_e (map_e (\<lambda>c. bind_e (join (items c) '', '')
                     (\<lambda>s. Inr (''Container #'' @ show_int (container_id c) @ '': '' @ s))) containers)
             (\<lambda>lines. Inr (''Here's what's in all your containers:\<newline>\<newline>''
                             @ js_join ''\<newline>'' lines))\<rparr>
      else respond ''You don't have any containers yet.'')"

definition clear_updater :: "jsval \<Rightarrow> updater" where
  "clear_updater n prev =
     Inr (map (\<lambda>c. if JNum (container_id c) = n then c\<lparr>items := JArr []\<rparr> else c) prev)"

definition exec_CLEAR_CONTAINER :: "json \<Rightarrow> exec_result" where
  "exec_CLEAR_CONTAINER action =
     (let n = field action ''containerNumber'' in
      if truthy n then
        \<lparr>queued = Some (clear_updater n),
         returned = Inr (''Container '' @ ToString n @ '' has been cleared.'')\<rparr>
      else respond ''Sorry, I couldn't perform that action.'')"

definition newContainerId :: "container list \<Rightarrow> int" where
  "newContainerId containers =
     (if 0 < length containers then math_max (map container_id containers) + 1 else 1)"

definition create_updater :: "int \<Rightarrow> jsval \<Rightarrow> updater" where
  "create_updater n its prev =
     Inr (prev @ [\<lparr>container_id = n, items = (if truthy its then its else JArr [])\<rparr>])"

definition exec_CREATE_CONTAINER :: "container list \<Rightarrow> json \<Rightarrow> exec_result" where
  \<open>exec_CREATE_CONTAINER containers action =
     (let n = newContainerId containers; its = field action ''items'' in
      \<lparr>queued = Some (create_updater n its),
       returned =
         bind_e (if nonempty its
                 then bind_e (join its '', '') (\<lambda>s. Inr ('' and added "'' @ s @ ''"''))
                 else Inr []) (\<lambda>added.
           Inr (''I've created container '' @ show_int n @ added @ ''.''))\<rparr>)\<close>

definition delete_updater :: "jsval \<Rightarrow> updater" where
  "delete_updater n prev = Inr (filter (\<lambda>c. JNum (container_id c) \<noteq> n) prev)"

definition exec_DELETE_CONTAINER :: "container list \<Rightarrow> json \<Rightarrow> exec_result" where
  "exec_DELETE_CONTAINER containers action =
     (let n = field action ''containerNumber'' in
      if truthy n then
        (if list_ex (\<lambda>c. JNum (container_id c) = n) containers
         then \<lparr>queued = Some (delete_updater n),
               returned = Inr (''OK, I have deleted container #'' @ ToString n @ ''.'')\<rparr>
         else respond (''Sorry, I couldn't find container #'' @ ToString n @ '' to delete.''))
      else respond ''Please specify which container you'd like to delete.'')"


text \<open>
  Reading \<open>action.action\<close> throws on \<open>null\<close>. The \<open>switch\<close> compares with \<open>===\<close>, so a
  value that is none of the seven strings of \<open>ActionType\<close> leaves the initial response.
\<close>

definition executeAction :: "container list \<Rightarrow> json \<Rightarrow> exec_result" where
  "executeAction containers action =
     (if action = JValue JNull \<or> action = JValue JUndefined
      then \<lparr>queued = None, returned = Inl TypeError\<rparr>
      else let a = field action ''action'' in
        if a = JStr ''UPDATE_ITEMS'' then exec_UPDATE_ITEMS containers action
        else if a = JStr ''LIST_ITEMS'' then exec_LIST_ITEMS containers action
        else if a = JStr ''LIST_ALL_CONTAINERS'' then exec_LIST_ALL_CONTAINERS containers
        else if a = JStr ''CLEAR_CONTAINER'' then exec_CLEAR_CONTAINER action
        else if a = JStr ''CREATE_CONTAINER'' then exec_CREATE_CONTAINER containers action
        else if a = JStr ''DELETE_CONTAINER'' then exec_DELETE_CONTAINER containers action
        else if a = JStr ''UNKNOWN''
        then respond ''I'm sorry, I didn't quite understand that. Could you please rephrase?''
        else respond ''Sorry, I couldn't perform that action.'')"

text \<open>The store after the render that follows: the queued update function applied.\<close>

definition apply_queued :: "exec_result \<Rightarrow> container list \<Rightarrow> error + container list" where
  "apply_queued r prev = (case queued r of None \<Rightarrow> Inr prev | Some u \<Rightarrow> u prev)"

text \<open>
  Turns run one after the other, each reading the store the turn before left: the update
  function an execution queued is applied before the next action is executed.
\<close>

fun execute_all :: "container list \<Rightarrow> json list \<Rightarrow> error + container list" where
  "execute_all containers [] = Inr containers"
| "execute_all containers (a # as) =
     bind_e (apply_queued (executeAction containers a) containers) (\<lambda>cs. execute_all cs as)"

section \<open>Well-typed stores and actions\<close>

text \<open>
  The declared type of \<open>Container.items\<close> and of the item lists of \<open>AIAction\<close> is
  \<open>string[]\<close>; an optional property that is absent reads \<open>undefined\<close>.
\<close>

definition strs :: "string list \<Rightarrow> jsval" where
  "strs xs = JArr (map JStr xs)"

fun opt_strs :: "string list option \<Rightarrow> jsval" where
  "opt_strs None = JUndefined"
| "opt_strs (Some xs) = strs xs"

fun list_of :: "string list option \<Rightarrow> string list" where
  "list_of None = []"
| "list_of (Some xs) = xs"

definition typed_container :: "int \<times> string list \<Rightarrow> container" where
  "typed_container p = \<lparr>container_id = fst p, items = strs (snd p)\<rparr>"

definition typed_store :: "(int \<times> string list) list \<Rightarrow> container list" where
  "typed_store tcs = map typed_container tcs"

text \<open>An item is removed by a list of removal terms when its lowercase form contains the
  lowercase form of at least one of them.\<close>

definition removed_by :: "string list \<Rightarrow> string \<Rightarrow> bool" where
  "removed_by rs item = list_ex (\<lambda>r. str_includes (map lower_char item) (map lower_char r)) rs"

text \<open>The first occurrence of every string of a list, in the order of the list.\<close>

fun first_occurrences :: "string list \<Rightarrow> string list" where
  "first_occurrences [] = []"
| "first_occurrences (x # xs) = x # filter (\<lambda>y. y \<noteq> x) (first_occurrences xs)"

section \<open>The interpreters\<close>

text \<open>
  What the awaited call to the language model and \<open>JSON.parse\<close> of its text come to:
  the call is rejected (or the response has no text), the trimmed text is not JSON,
  or it parses to a value.
\<close>

datatype llm_outcome = Rejected | Unparsable | Parsed json

record pending_scan =
  containerId :: int
  pending_items :: jsval

definition UNKNOWN_action :: json where
  "UNKNOWN_action = JObject [(''action'', JStr ''UNKNOWN'')]"

text \<open>
  The system instruction is a template literal built inside the \<open>try\<close>, before the call.
  Its text goes to the model only; the one part of it that can throw is
  \<open>pendingItemsContext.items.join(', ')\<close>.
\<close>

definition pending_context :: "pending_scan option \<Rightarrow> error + string" where
  "pending_context pendingItemsContext =
     (case pendingItemsContext of None \<Rightarrow> Inr [] | Some p \<Rightarrow> join (pending_items p) '', '')"

text \<open>The body of \<open>interpretUserCommand\<close> is one \<open>try\<close>; its \<open>catch\<close> returns \<open>UNKNOWN\<close>.\<close>

definition interpretUserCommand ::
  "string \<Rightarrow> container list \<Rightarrow> pending_scan option \<Rightarrow> llm_outcome \<Rightarrow> json" where
  "interpretUserCommand command cs pendingItemsContext reply =
     (case pending_context pendingItemsContext of
        Inl e \<Rightarrow> UNKNOWN_action
      | Inr context \<Rightarrow>
          (case reply of
             Rejected \<Rightarrow> UNKNOWN_action
           | Unparsable \<Rightarrow> UNKNOWN_action
           | Parsed parsedAction \<Rightarrow> parsedAction))"

text \<open>\<open>result.items || []\<close>, and \<open>[]\<close> from the \<open>catch\<close>; reading \<open>null.items\<close> throws.\<close>

definition analyzeImageOfBinContents :: "llm_outcome \<Rightarrow> jsval" where
  "analyzeImageOfBinContents reply =
     (case reply of
        Rejected \<Rightarrow> JArr []
      | Unparsable \<Rightarrow> JArr []
      | Parsed result \<Rightarrow>
          if result = JValue JNull \<or> result = JValue JUndefined then JArr []
          else if truthy (field result ''items'') then field result ''items'' else JArr [])"

section \<open>The conversation controller\<close>

datatype sender = User | AI | System

record message =
  message_id :: string
  sender :: sender
  message_text :: string
  isLoading :: bool

record app_state =
  containers :: "container list"
  messages :: "message list"
  userInput :: string
  isProcessing :: bool
  isCameraOpen :: bool
  pendingScannedItems :: "pending_scan option"

text \<open>The state after mounting: the seed containers and the welcome message.\<close>

definition initial_state :: app_state where
  "initial_state =
     \<lparr>containers = initial_containers,
      messages = [\<lparr>message_id = ''welcome'', sender = AI,
                   message_text = ''Welcome to your Container Assistant! How can I help you today? You can say things like 'What's in container 1?' or 'Add winter clothes to a new container'.'',
                   isLoading = False\<rparr>],
      userInput = [],
      isProcessing = False,
      isCameraOpen = False,
      pendingScannedItems = None\<rparr>"

text \<open>\<open>!messageText.trim()\<close>: the text is empty or white space only.\<close>

definition is_whitespace :: "char \<Rightarrow> bool" where
  "is_whitespace c = (c \<in> set [CHR '' '', CHR 0x09, CHR 0x0A, CHR 0x0B, CHR 0x0C, CHR 0x0D])"

definition trim_empty :: "string \<Rightarrow> bool" where
  "trim_empty s = list_all is_whitespace s"

text \<open>
  An asynchronous handler runs in two parts. The first runs when the handler is called,
  up to its \<open>await\<close>, on the state of the last render; what it leaves in flight is the
  continuation, a closure over the \<open>containers\<close> and \<open>pendingScannedItems\<close> of that render.
  The second runs when the awaited call settles, and changes the state through update
  functions only. \<open>Date.now()\<close> is the parameter \<open>now\<close>. Speech output has no effect on
  this state and is left out.
\<close>

datatype task = SendTurn string "container list" "pending_scan option" | ScanTurn int

definition handleSendMessage_begin :: "int \<Rightarrow> string \<Rightarrow> app_state \<Rightarrow> app_state \<times> task option" where
  "handleSendMessage_begin now messageText st =
     (if trim_empty messageText \<or> isProcessing st then (st, None)
      else (st\<lparr>messages := messages st @
                  [\<lparr>message_id = show_int now, sender = User,
                     message_text = messageText, isLoading = False\<rparr>,
                   \<lparr>message_id = show_int (now + 1), sender = AI,
                     message_text = ''...'', isLoading = True\<rparr>],
               isProcessing := True\<rparr>,
            Some (SendTurn messageText (containers st) (pendingScannedItems st))))"

definition clear_pending :: "pending_scan option \<Rightarrow> app_state \<Rightarrow> app_state" where
  "clear_pending snapshot st = (if snapshot \<noteq> None then st\<lparr>pendingScannedItems := None\<rparr> else st)"

definition replace_last :: "message \<Rightarrow> app_state \<Rightarrow> app_state" where
  "replace_last m st = st\<lparr>messages := butlast (messages st) @ [m]\<rparr>"

text \<open>
  The continuation of \<open>handleSendMessage\<close>: \<open>try\<close>, \<open>catch\<close> and \<open>finally\<close>. The update
  function that \<open>executeAction\<close> queued is applied at the render that follows, also when
  the handler went on to throw; when the update function itself throws, the render
  fails with an exception no handler catches (\<open>Inl\<close>).
\<close>

definition handleSendMessage_resume ::
  "int \<Rightarrow> llm_outcome \<Rightarrow> string \<Rightarrow> container list \<Rightarrow> pending_scan option \<Rightarrow> app_state
     \<Rightarrow> error + app_state" where
  "handleSendMessage_resume now reply messageText cs pending st =
     (let action = interpretUserCommand messageText cs pending reply;
          st1 = clear_pending pending st;
          r = executeAction cs action
      in bind_e (apply_queued r (containers st1)) (\<lambda>cs'.
           let st2 = st1\<lparr>containers := cs'\<rparr>;
               st3 = (case returned r of
                        Inr aiResponseText \<Rightarrow>
                          replace_last \<lparr>message_id = show_int (now + 2), sender = AI,
                                         message_text = aiResponseText, isLoading = False\<rparr> st2
                      | Inl e \<Rightarrow>
                          replace_last \<lparr>message_id = show_int (now + 2), sender = System,
                                         message_text = ''An error occurred. Please try again.'',
                                         isLoading = False\<rparr> (clear_pending pending st2))
           in Inr (st3\<lparr>isProcessing := False, userInput := []\<rparr>)))"

definition handleCameraScan_begin :: "int \<Rightarrow> int \<Rightarrow> app_state \<Rightarrow> app_state \<times> task" where
  "handleCameraScan_begin now cid st =
     (st\<lparr>isCameraOpen := False,
         messages := messages st @
           [\<lparr>message_id = show_int (now + 1), sender = System,
              message_text = ''Scanning container #'' @ show_int cid @ ''...'', isLoading = True\<rparr>],
         isProcessing := True\<rparr>,
      ScanTurn cid)"

definition handleCameraScan_resume :: "int \<Rightarrow> llm_outcome \<Rightarrow> int \<Rightarrow> app_state \<Rightarrow> app_state" where
  "handleCameraScan_resume now reply cid st =
     (let its = analyzeImageOfBinContents reply;
          failed = replace_last \<lparr>message_id = show_int (now + 2), sender = System,
                     message_text = ''An error occurred while scanning the image.'',
                     isLoading = False\<rparr>;
          st' = (case length_gt0 its of
                   Inl e \<Rightarrow> failed st
                 | Inr True \<Rightarrow>
                     (let st1 = st\<lparr>pendingScannedItems :=
                                      Some \<lparr>containerId = cid, pending_items = its\<rparr>\<rparr>
                      in case join its '', '' of
                           Inl e \<Rightarrow> failed st1
                         | Inr s \<Rightarrow>
                             replace_last \<lparr>message_id = show_int now, sender = AI,
                               message_text = ''I scanned container #'' @ show_int cid
                                 @ '' and found these items: '' @ s
                                 @ ''. Which of these should I add?'',
                               isLoading = False\<rparr> st1)
                 | Inr False \<Rightarrow>
                     replace_last \<lparr>message_id = show_int (now + 2), sender = AI,
                       message_text = ''I couldn't identify any distinct items in container #''
                         @ show_int cid @ '', so I left it as is.'',
                       isLoading = False\<rparr> st)
      in st'\<lparr>isProcessing := False\<rparr>)"

text \<open>
  The states the application reaches, with the turns in flight. Every handler runs on
  the state of the last render. The page calls \<open>handleSendMessage\<close> at any time (the
  handler checks \<open>isProcessing\<close> itself); the capture button of the camera dialog, the only
  caller of \<open>handleCameraScan\<close>, is disabled while \<open>isProcessing\<close> holds or no container
  exists. A render at which the queued update function throws ends the run. The page
  itself can fail to render a state (a container whose items are a string that is not
  empty has no \<open>map\<close>); such states stay in the relation, which so holds every state
  the page reaches and more.
\<close>

inductive reachable :: "app_state \<Rightarrow> task list \<Rightarrow> bool" where
  start: "reachable initial_state []"
| typing: "reachable st ts \<Longrightarrow> reachable (st\<lparr>userInput := s\<rparr>) ts"
| camera: "reachable st ts \<Longrightarrow> reachable (st\<lparr>isCameraOpen := b\<rparr>) ts"
| send: "reachable st ts \<Longrightarrow> handleSendMessage_begin now messageText st = (st', t)
         \<Longrightarrow> reachable st' (case t of None \<Rightarrow> ts | Some k \<Rightarrow> k # ts)"
| send_settles: "reachable st ts \<Longrightarrow> SendTurn messageText cs p \<in> set ts
         \<Longrightarrow> handleSendMessage_resume now reply messageText cs p st = Inr st'
         \<Longrightarrow> reachable st' (remove1 (SendTurn messageText cs p) ts)"
| scan: "reachable st ts \<Longrightarrow> isCameraOpen st \<Longrightarrow> \<not> isProcessing st \<Longrightarrow> containers st \<noteq> []
         \<Longrightarrow> handleCameraScan_begin now cid st = (st', t) \<Longrightarrow> reachable st' (t # ts)"
| scan_settles: "reachable st ts \<Longrightarrow> ScanTurn cid \<in> set ts
         \<Longrightarrow> reachable (handleCameraScan_resume now reply cid st) (remove1 (ScanTurn cid) ts)"

section \<open>What holds while a turn is in flight\<close>

text \<open>The ids of a store: no two containers share one, and every id is positive.\<close>

definition ids_ok :: "container list \<Rightarrow> bool" where
  "ids_ok cs = (distinct (map container_id cs) \<and> list_all (\<lambda>i. 0 < i) (map container_id cs))"

text \<open>The closure of a turn that is in flight still holds the store and the pending scan
  of the current state.\<close>

fun snapshot_current :: "app_state \<Rightarrow> task \<Rightarrow> bool" where
  "snapshot_current st (SendTurn messageText cs p) = (cs = containers st \<and> p = pendingScannedItems st)"
| "snapshot_current st (ScanTurn cid) = True"

definition turn_invariant :: "app_state \<Rightarrow> task list \<Rightarrow> bool" where
  "turn_invariant st ts =
     (length ts \<le> 1 \<and> (isProcessing st = (ts \<noteq> [])) \<and> list_all (snapshot_current st) ts
      \<and> ids_ok (containers st))"

section \<open>Facts about the store\<close>

lemma bind_e_simps [simp]: "bind_e (Inl e) f = Inl e" "bind_e (Inr x) f = f x"
  by (simp_all add: bind_e_def)

lemma str_includes_sublist: "str_includes s t = sublist t s"
  by (induction s) (simp_all add: sublist_Cons_right)

lemma math_max_Max: "ns \<noteq> [] \<Longrightarrow> math_max ns = Max (set ns)"
  by (cases ns) (simp_all add: Max.set_eq_fold [symmetric])

lemma newContainerId_fresh: "c \<in> set cs \<Longrightarrow> container_id c < newContainerId cs"
proof -
  assume c: "c \<in> set cs"
  then have ne: "map container_id cs \<noteq> []" by auto
  have "container_id c \<le> Max (set (map container_id cs))"
    using c by (intro Max_ge) auto
  then show ?thesis using ne c by (auto simp: newContainerId_def math_max_Max)
qed

lemma newContainerId_eq:
  "newContainerId cs = (if cs = [] then 1 else Max (container_id ` set cs) + 1)"
  by (simp add: newContainerId_def math_max_Max)

lemma find_container_None: "(\<forall>c\<in>set cs. container_id c \<noteq> n) \<Longrightarrow> find_container cs (JNum n) = None"
  by (simp add: find_container_def find_None_iff)

lemma find_append_None: "find P xs = None \<Longrightarrow> find P (xs @ ys) = find P ys"
  by (induction xs) (auto split: if_splits)

lemma field_JStr_not_value: "field a k = JStr s \<Longrightarrow> a \<noteq> JValue v"
  by (cases a) auto

lemma apply_queued_respond [simp]: "apply_queued (respond s) cs = Inr cs"
  by (simp add: apply_queued_def respond_def)

lemma returned_respond [simp]: "returned (respond s) = Inr s"
  by (simp add: respond_def)

section \<open>Well-typed item lists\<close>

lemma spread_strs [simp]: "spread (strs xs) = Inr (map JStr xs)"
  by (simp add: spread_def strs_def)

lemma nonempty_strs [simp]: "nonempty (strs xs) = (xs \<noteq> [])"
  by (simp add: nonempty_def strs_def)

lemma nonempty_JUndefined [simp]: "nonempty JUndefined = False"
  by (simp add: nonempty_def)

lemma nonempty_opt_strs [simp]: "nonempty (opt_strs ox) = (list_of ox \<noteq> [])"
  by (cases ox) (simp_all add: nonempty_def strs_def)

lemma join_strs [simp]: "join (strs xs) sep = Inr (js_join sep xs)"
proof -
  have "map element_string (map JStr xs) = xs"
    by (induction xs) (simp_all add: element_string_def)
  then show ?thesis by (simp add: join_def strs_def)
qed

lemma removed_by_Nil [simp]: "removed_by [] item = False"
  by (simp add: removed_by_def)

lemma some_includes_strs:
  "some_includes (JStr item) (map JStr rs) = Inr (removed_by rs item)"
  by (induction rs) (simp_all add: removed_by_def toLowerCase_def)

lemma filter_items_strs:
  "filter_items (strs rs) (map JStr xs) = Inr (map JStr (filter (\<lambda>item. \<not> removed_by rs item) xs))"
  by (induction xs) (simp_all add: some_match_def strs_def some_includes_strs)

subsection \<open>First occurrences\<close>

lemma filter_first_occurrences: "filter P (first_occurrences xs) = first_occurrences (filter P xs)"
proof (induction xs)
  case Nil
  then show ?case by simp
next
  case (Cons x xs)
  show ?case
  proof (cases "P x")
    case True
    then show ?thesis by (simp add: Cons [symmetric] conj_commute)
  next
    case False
    have "filter P (filter (\<lambda>y. y \<noteq> x) (first_occurrences xs)) = filter P (first_occurrences xs)"
      unfolding filter_filter by (rule filter_cong) (use False in auto)
    then show ?thesis using False Cons by simp
  qed
qed

lemma set_first_occurrences [simp]: "set (first_occurrences xs) = set xs"
  by (induction xs) auto

lemma distinct_first_occurrences [simp]: "distinct (first_occurrences xs)"
  by (induction xs) auto

lemma first_occurrences_distinct: "distinct xs \<Longrightarrow> first_occurrences xs = xs"
  by (induction xs) (auto simp: filter_id_conv)

lemma first_occurrences_append:
  "first_occurrences (xs @ ys) = first_occurrences xs @ filter (\<lambda>y. y \<notin> set xs) (first_occurrences ys)"
  by (induction xs) (auto simp: conj_commute intro: filter_cong)

lemma same_value_JStr: "list_ex (same_value (JStr y)) (map JStr acc) = (y \<in> set acc)"
  by (induction acc) (auto simp: same_value_def)

lemma fold_set_add_strs:
  "fold set_add (map JStr ys) (map JStr acc)
     = map JStr (acc @ first_occurrences (filter (\<lambda>y. y \<notin> set acc) ys))"
proof (induction ys arbitrary: acc)
  case Nil
  then show ?case by simp
next
  case (Cons y ys)
  show ?case
  proof (cases "y \<in> set acc")
    case True
    then show ?thesis using Cons [of acc] by (simp add: set_add_def same_value_JStr)
  next
    case False
    have "fold set_add (map JStr (y # ys)) (map JStr acc) = fold set_add (map JStr ys) (map JStr (acc @ [y]))"
      using False by (simp add: set_add_def same_value_JStr)
    also have "\<dots> = map JStr ((acc @ [y]) @ first_occurrences (filter (\<lambda>z. z \<notin> set (acc @ [y])) ys))"
      by (rule Cons)
    also have "filter (\<lambda>z. z \<notin> set (acc @ [y])) ys = filter (\<lambda>z. z \<noteq> y) (filter (\<lambda>z. z \<notin> set acc) ys)"
      by (auto simp: filter_filter intro: filter_cong)
    finally show ?thesis using False by (simp add: filter_first_occurrences)
  qed
qed

lemma new_Set_strs: "new_Set (map JStr ys) = map JStr (first_occurrences ys)"
  using fold_set_add_strs [of ys "[]"] by (simp add: new_Set_def)

subsection \<open>Updating a well-typed store\<close>

lemma update_items_strs:
  "update_items (strs xs) (opt_strs adds) (opt_strs rems)
     = Inr (map JStr (let kept = filter (\<lambda>item. \<not> removed_by (list_of rems) item) xs
                      in if list_of adds = [] then kept
                         else first_occurrences (kept @ list_of adds)))"
proof -
  let ?kept = "filter (\<lambda>item. \<not> removed_by (list_of rems) item) xs"
  have rem: "(if nonempty (opt_strs rems) then filter_items (opt_strs rems) (map JStr xs)
              else Inr (map JStr xs)) = Inr (map JStr ?kept)"
  proof (cases rems)
    case None
    then show ?thesis by simp
  next
    case (Some rs)
    then show ?thesis by (cases "rs = []") (simp_all add: filter_items_strs)
  qed
  have add: "(if nonempty (opt_strs adds)
              then bind_e (spread (opt_strs adds)) (\<lambda>added. Inr (new_Set (map JStr ?kept @ added)))
              else Inr (map JStr ?kept))
           = Inr (map JStr (if list_of adds = [] then ?kept
                            else first_occurrences (?kept @ list_of adds)))"
  proof (cases adds)
    case None
    then show ?thesis by simp
  next
    case (Some as)
    then show ?thesis
      using new_Set_strs [of "?kept @ as"] by (cases "as = []") simp_all
  qed
  show ?thesis
    unfolding update_items_def by (simp only: spread_strs bind_e_simps rem add Let_def)
qed

lemmas update_items_JArr = update_items_strs [unfolded strs_def]

lemma find_typed_store:
  "n \<in> fst ` set tcs \<Longrightarrow> \<exists>c. find_container (typed_store tcs) (JNum n) = Some c"
  by (cases "find_container (typed_store tcs) (JNum n)")
     (auto simp: find_container_def find_None_iff typed_store_def typed_container_def)

lemma map_e_map_Inr:
  "(\<And>x. x \<in> set xs \<Longrightarrow> f (h x) = Inr (k x)) \<Longrightarrow> map_e f (map h xs) = Inr (map k xs)"
  by (induction xs) simp_all

lemma exec_update_typed:
  assumes "field a ''action'' = JStr ''UPDATE_ITEMS''"
    and "field a ''containerNumber'' = JNum n" and "n \<noteq> 0" and "n \<in> fst ` set tcs"
    and "field a ''itemsToAdd'' = opt_strs adds" and "field a ''itemsToRemove'' = opt_strs rems"
  shows "apply_queued (executeAction (typed_store tcs) a) (typed_store tcs)
     = Inr (typed_store (map (\<lambda>(i, xs).
         if i = n
         then (i, let kept = filter (\<lambda>item. \<not> removed_by (list_of rems) item) xs
                  in if list_of adds = [] then kept else first_occurrences (kept @ list_of adds))
         else (i, xs)) tcs))"
proof -
  let ?g = "\<lambda>(i, xs).
         if i = n
         then (i, let kept = filter (\<lambda>item. \<not> removed_by (list_of rems) item) xs
                  in if list_of adds = [] then kept else first_occurrences (kept @ list_of adds))
         else (i, xs)"
  obtain c where c: "find_container (typed_store tcs) (JNum n) = Some c"
    using find_typed_store [OF assms(4)] by blast
  have nv: "a \<noteq> JValue JNull" "a \<noteq> JValue JUndefined"
    using assms(1) by (cases a; simp)+
  have q: "queued (executeAction (typed_store tcs) a)
             = Some (update_updater (JNum n) (opt_strs adds) (opt_strs rems))"
    using assms nv c by (simp add: executeAction_def exec_UPDATE_ITEMS_def Let_def)
  have "update_updater (JNum n) (opt_strs adds) (opt_strs rems) (map typed_container tcs)
          = Inr (map (\<lambda>p. typed_container (?g p)) tcs)"
    unfolding update_updater_def
    by (rule map_e_map_Inr) (auto simp: typed_container_def update_items_JArr strs_def Let_def)
  then show ?thesis
    using q by (simp add: apply_queued_def typed_store_def comp_def)
qed

section \<open>Creating and deleting\<close>

lemma apply_queued_create:
  assumes "field a ''action'' = JStr ''CREATE_CONTAINER''"
  shows "apply_queued (executeAction cs a) cs
           = Inr (cs @ [\<lparr>container_id = newContainerId cs,
                          items = (if truthy (field a ''items'') then field a ''items'' else JArr [])\<rparr>])"
  using assms field_JStr_not_value [OF assms]
  by (simp add: executeAction_def exec_CREATE_CONTAINER_def apply_queued_def create_updater_def Let_def)

lemma apply_queued_delete:
  assumes "field a ''action'' = JStr ''DELETE_CONTAINER''"
  shows "\<exists>P. apply_queued (executeAction cs a) cs = Inr (filter P cs)"
proof -
  let ?n = "field a ''containerNumber''"
  show ?thesis
  proof (cases "truthy ?n \<and> list_ex (\<lambda>c. JNum (container_id c) = ?n) cs")
    case True
    then have "apply_queued (executeAction cs a) cs = Inr (filter (\<lambda>c. JNum (container_id c) \<noteq> ?n) cs)"
      using assms field_JStr_not_value [OF assms]
      by (simp add: executeAction_def exec_DELETE_CONTAINER_def apply_queued_def delete_updater_def Let_def)
    then show ?thesis by blast
  next
    case False
    then have "apply_queued (executeAction cs a) cs = Inr (filter (\<lambda>c. True) cs)"
      using assms field_JStr_not_value [OF assms]
      by (auto simp add: executeAction_def exec_DELETE_CONTAINER_def apply_queued_def respond_def Let_def)
    then show ?thesis by blast
  qed
qed

lemma distinct_create:
  assumes "distinct (map container_id cs)"
  shows "distinct (map container_id (cs @ [\<lparr>container_id = newContainerId cs, items = v\<rparr>]))"
  using assms newContainerId_fresh [of _ cs] by fastforce

lemma execute_all_distinct:
  assumes "distinct (map container_id cs)"
    and "\<forall>a\<in>set as. field a ''action'' = JStr ''CREATE_CONTAINER''
                     \<or> field a ''action'' = JStr ''DELETE_CONTAINER''"
  shows "\<exists>cs'. execute_all cs as = Inr cs' \<and> distinct (map container_id cs')"
  using assms
proof (induction as arbitrary: cs)
  case Nil
  then show ?case by simp
next
  case (Cons a as)
  from Cons.prems(2) consider
    (create) "field a ''action'' = JStr ''CREATE_CONTAINER''" | (delete) "field a ''action'' = JStr ''DELETE_CONTAINER''"
    by auto
  then obtain cs1 where step: "apply_queued (executeAction cs a) cs = Inr cs1"
    and d: "distinct (map container_id cs1)"
  proof cases
    case create
    show ?thesis
      using that apply_queued_create [OF create, of cs] distinct_create [OF Cons.prems(1)] by simp
  next
    case delete
    then obtain P where "apply_queued (executeAction cs a) cs = Inr (filter P cs)"
      using apply_queued_delete by blast
    then show ?thesis using that Cons.prems(1) by (simp add: distinct_map_filter)
  qed
  from Cons.IH [OF d] Cons.prems(2) step show ?case by simp
qed

subsection \<open>Every execution keeps the ids distinct and positive\<close>

lemma ids_ok_same_ids: "map container_id cs' = map container_id cs \<Longrightarrow> ids_ok cs \<Longrightarrow> ids_ok cs'"
  by (simp add: ids_ok_def)

lemma map_e_ids:
  assumes "map_e f cs = Inr cs'" and "\<And>c c'. f c = Inr c' \<Longrightarrow> container_id c' = container_id c"
  shows "map container_id cs' = map container_id cs"
  using assms(1)
proof (induction cs arbitrary: cs')
  case Nil
  then show ?case by auto
next
  case (Cons c cs)
  then show ?case
    using assms(2) [of c] by (auto simp: bind_e_def split: sum.splits)
qed

lemma update_updater_ids:
  "update_updater n a r cs = Inr cs' \<Longrightarrow> map container_id cs' = map container_id cs"
  unfolding update_updater_def
  by (erule map_e_ids) (auto simp: bind_e_def split: sum.splits if_splits)

lemma clear_updater_ids:
  "clear_updater n cs = Inr cs' \<Longrightarrow> map container_id cs' = map container_id cs"
proof -
  have "map container_id (map (\<lambda>c. if JNum (container_id c) = n then c\<lparr>items := JArr []\<rparr> else c) cs)
          = map container_id cs"
    by (induction cs) auto
  then show "clear_updater n cs = Inr cs' \<Longrightarrow> map container_id cs' = map container_id cs"
    by (auto simp: clear_updater_def)
qed

lemma queued_respond [simp]: "queued (respond s) = None"
  by (simp add: respond_def)

lemma queued_UPDATE_ITEMS:
  "queued (exec_UPDATE_ITEMS cs a) = None
   \<or> (\<exists>n x r. queued (exec_UPDATE_ITEMS cs a) = Some (update_updater n x r))"
  by (auto simp: exec_UPDATE_ITEMS_def Let_def split: option.splits)

lemma queued_LIST_ITEMS: "queued (exec_LIST_ITEMS cs a) = None"
  by (simp add: exec_LIST_ITEMS_def Let_def split: option.splits)

lemma queued_LIST_ALL_CONTAINERS: "queued (exec_LIST_ALL_CONTAINERS cs) = None"
  by (simp add: exec_LIST_ALL_CONTAINERS_def)

lemma queued_CLEAR_CONTAINER:
  "queued (exec_CLEAR_CONTAINER a) = None
   \<or> (\<exists>n. queued (exec_CLEAR_CONTAINER a) = Some (clear_updater n))"
  by (auto simp: exec_CLEAR_CONTAINER_def Let_def)

lemma queued_CREATE_CONTAINER:
  "\<exists>v. queued (exec_CREATE_CONTAINER cs a) = Some (create_updater (newContainerId cs) v)"
  by (auto simp: exec_CREATE_CONTAINER_def Let_def)

lemma queued_DELETE_CONTAINER:
  "queued (exec_DELETE_CONTAINER cs a) = None
   \<or> (\<exists>n. queued (exec_DELETE_CONTAINER cs a) = Some (delete_updater n))"
  by (auto simp: exec_DELETE_CONTAINER_def Let_def)

lemma queued_cases:
  "queued (executeAction cs a) = None
   \<or> (\<exists>n x r. queued (executeAction cs a) = Some (update_updater n x r))
   \<or> (\<exists>n. queued (executeAction cs a) = Some (clear_updater n))
   \<or> (\<exists>v. queued (executeAction cs a) = Some (create_updater (newContainerId cs) v))
   \<or> (\<exists>n. queued (executeAction cs a) = Some (delete_updater n))"
  using queued_UPDATE_ITEMS [of cs a] queued_LIST_ITEMS [of cs a] queued_LIST_ALL_CONTAINERS [of cs]
    queued_CLEAR_CONTAINER [of a] queued_CREATE_CONTAINER [of cs a] queued_DELETE_CONTAINER [of cs a]
  unfolding executeAction_def Let_def
  by (simp only: queued_respond exec_result.simps split: if_split) blast

lemma executeAction_ids_ok:
  assumes "apply_queued (executeAction cs a) cs = Inr cs'" and "ids_ok cs"
  shows "ids_ok cs'"
  using queued_cases [of cs a]
proof (elim disjE exE)
  assume "queued (executeAction cs a) = None"
  then show ?thesis using assms by (simp add: apply_queued_def)
next
  fix n x r assume "queued (executeAction cs a) = Some (update_updater n x r)"
  then have "map container_id cs' = map container_id cs"
    using assms(1) update_updater_ids by (simp add: apply_queued_def)
  then show ?thesis using assms(2) by (rule ids_ok_same_ids)
next
  fix n assume "queued (executeAction cs a) = Some (clear_updater n)"
  then have "map container_id cs' = map container_id cs"
    using assms(1) clear_updater_ids by (simp add: apply_queued_def)
  then show ?thesis using assms(2) by (rule ids_ok_same_ids)
next
  fix v assume "queued (executeAction cs a) = Some (create_updater (newContainerId cs) v)"
  then have cs': "cs' = cs @ [\<lparr>container_id = newContainerId cs, items = (if truthy v then v else JArr [])\<rparr>]"
    using assms(1) by (simp add: apply_queued_def create_updater_def)
  have "0 < newContainerId cs"
  proof (cases cs)
    case Nil
    then show ?thesis by (simp add: newContainerId_def)
  next
    case (Cons c cs0)
    then have "0 < container_id c" "container_id c < newContainerId cs"
      using assms(2) newContainerId_fresh [of c cs] by (auto simp: ids_ok_def list_all_iff)
    then show ?thesis by simp
  qed
  then show ?thesis
    using assms(2) distinct_create [of cs] by (simp add: cs' ids_ok_def list_all_iff)
next
  fix n assume "queued (executeAction cs a) = Some (delete_updater n)"
  then have "cs' = filter (\<lambda>c. JNum (container_id c) \<noteq> n) cs"
    using assms(1) by (simp add: apply_queued_def delete_updater_def)
  then show ?thesis using assms(2)
    by (auto simp: ids_ok_def distinct_map_filter list_all_iff)
qed

section \<open>Facts about the interpreter and the controller\<close>

lemma executeAction_UNKNOWN:
  "executeAction cs UNKNOWN_action
     = respond ''I'm sorry, I didn't quite understand that. Could you please rephrase?''"
  by (simp add: executeAction_def UNKNOWN_action_def)


lemma interpret_failure:
  "reply = Rejected \<or> reply = Unparsable \<Longrightarrow> interpretUserCommand command cs p reply = UNKNOWN_action"
  by (auto simp: interpretUserCommand_def split: sum.splits)

lemma snapshot_current_cong:
  "containers st' = containers st \<Longrightarrow> pendingScannedItems st' = pendingScannedItems st
     \<Longrightarrow> snapshot_current st' = snapshot_current st"
proof
  fix t
  assume "containers st' = containers st" "pendingScannedItems st' = pendingScannedItems st"
  then show "snapshot_current st' t = snapshot_current st t" by (cases t) simp_all
qed

lemma clear_pending_simps [simp]:
  "containers (clear_pending p st) = containers st"
  "messages (clear_pending p st) = messages st"
  "isProcessing (clear_pending p st) = isProcessing st"
  "isCameraOpen (clear_pending p st) = isCameraOpen st"
  "userInput (clear_pending p st) = userInput st"
  "pendingScannedItems (clear_pending p st) = (if p \<noteq> None then None else pendingScannedItems st)"
  by (simp_all add: clear_pending_def)

lemma replace_last_simps [simp]:
  "containers (replace_last m st) = containers st"
  "messages (replace_last m st) = butlast (messages st) @ [m]"
  "isProcessing (replace_last m st) = isProcessing st"
  "isCameraOpen (replace_last m st) = isCameraOpen st"
  "userInput (replace_last m st) = userInput st"
  "pendingScannedItems (replace_last m st) = pendingScannedItems st"
  by (simp_all add: replace_last_def)

lemma resume_Inr_iff:
  "(\<exists>st'. handleSendMessage_resume now reply messageText cs p st = Inr st')
     = (\<exists>cs'. apply_queued (executeAction cs (interpretUserCommand messageText cs p reply))
                 (containers st) = Inr cs')"
  by (cases "apply_queued (executeAction cs (interpretUserCommand messageText cs p reply)) (containers st)")
     (simp_all add: handleSendMessage_resume_def Let_def)

lemma resume_fields:
  assumes "handleSendMessage_resume now reply messageText cs p st = Inr st'"
  shows "\<not> isProcessing st'"
    and "p \<noteq> None \<Longrightarrow> pendingScannedItems st' = None"
    and "p = None \<Longrightarrow> pendingScannedItems st' = pendingScannedItems st"
    and "apply_queued (executeAction cs (interpretUserCommand messageText cs p reply))
           (containers st) = Inr (containers st')"
    and "isCameraOpen st' = isCameraOpen st"
  using assms
  by (auto simp: handleSendMessage_resume_def Let_def bind_e_def split: sum.splits if_splits)

lemma scan_resume_fields:
  "\<not> isProcessing (handleCameraScan_resume now reply cid st)"
  "containers (handleCameraScan_resume now reply cid st) = containers st"
  by (auto simp: handleCameraScan_resume_def Let_def replace_last_def split: sum.splits bool.splits)

lemma reachable_invariant: "reachable st ts \<Longrightarrow> turn_invariant st ts"
proof (induction rule: reachable.induct)
  case start
  then show ?case
    by (simp add: turn_invariant_def initial_state_def ids_ok_def initial_containers_def)
next
  case (typing st ts s)
  then show ?case by (simp add: turn_invariant_def snapshot_current_cong [of "st\<lparr>userInput := s\<rparr>" st])
next
  case (camera st ts b)
  then show ?case by (simp add: turn_invariant_def snapshot_current_cong [of "st\<lparr>isCameraOpen := b\<rparr>" st])
next
  case (send st ts now messageText st' t)
  then show ?case
    by (auto simp: turn_invariant_def handleSendMessage_begin_def split: if_splits)
next
  case (send_settles st ts messageText cs p now reply st')
  from send_settles.IH send_settles.hyps(2) have ts: "ts = [SendTurn messageText cs p]"
    by (cases ts) (auto simp: turn_invariant_def)
  with send_settles.IH have cs: "cs = containers st" and ok: "ids_ok (containers st)"
    by (simp_all add: turn_invariant_def)
  have "ids_ok (containers st')"
    using executeAction_ids_ok [OF resume_fields(4) [OF send_settles.hyps(3), unfolded cs] ok] .
  with resume_fields(1) [OF send_settles.hyps(3)] ts show ?case
    by (simp add: turn_invariant_def)
next
  case (scan st ts now cid st' t)
  then show ?case
    by (auto simp: turn_invariant_def handleCameraScan_begin_def)
next
  case (scan_settles st ts cid now reply)
  from scan_settles.IH scan_settles.hyps(2) have ts: "ts = [ScanTurn cid]"
    by (cases ts) (auto simp: turn_invariant_def)
  with scan_settles.IH scan_resume_fields [of now reply cid st] show ?case
    by (simp add: turn_invariant_def)
qed

text \<open>Whatever the replies were, the ids of the store stay distinct and positive.\<close>

lemma reachable_ids_ok: "reachable st ts \<Longrightarrow> ids_ok (containers st)"
  using reachable_invariant [of st ts] by (simp add: turn_invariant_def)

section \<open>Replies that cannot be interpreted\<close>




section \<open>Container ids\<close>

text \<open>
  C2: in every store, \<open>CREATE_CONTAINER\<close> appends a container whose id is one more than
  the greatest id of the store, or 1 when the store is empty; and from a store whose ids
  are distinct, every sequence of \<open>CREATE_CONTAINER\<close> and \<open>DELETE_CONTAINER\<close> executions
  ends in a store whose ids are distinct.
\<close>

theorem create_assigns_next_id:
  "(field a ''action'' = JStr ''CREATE_CONTAINER'' \<longrightarrow>
      apply_queued (executeAction cs a) cs
        = Inr (cs @ [\<lparr>container_id = (if cs = [] then 1 else Max (container_id ` set cs) + 1),
                       items = (if truthy (field a ''items'') then field a ''items'' else JArr [])\<rparr>]))
   \<and> (distinct (map container_id cs)
        \<and> (\<forall>b\<in>set as. field b ''action'' = JStr ''CREATE_CONTAINER''
                        \<or> field b ''action'' = JStr ''DELETE_CONTAINER'')
      \<longrightarrow> (\<exists>cs'. execute_all cs as = Inr cs' \<and> distinct (map container_id cs')))"
  using apply_queued_create [of a cs] execute_all_distinct [of cs as]
  by (simp add: newContainerId_eq)

theorem create_assigns_next_id_witness:
  "apply_queued (executeAction initial_containers (JObject [(''action'', JStr ''CREATE_CONTAINER'')]))
       initial_containers
     = Inr (initial_containers @ [\<lparr>container_id = 3, items = JArr []\<rparr>])
   \<and> (\<exists>cs'. execute_all initial_containers
               [JObject [(''action'', JStr ''CREATE_CONTAINER'')],
                JObject [(''action'', JStr ''DELETE_CONTAINER''), (''containerNumber'', JNum 1)],
                JObject [(''action'', JStr ''CREATE_CONTAINER''), (''items'', strs [''X''])]] = Inr cs'
            \<and> distinct (map container_id cs'))"
proof -
  let ?a = "JObject [(''action'', JStr ''CREATE_CONTAINER'')]"
  let ?as = "[JObject [(''action'', JStr ''CREATE_CONTAINER'')],
              JObject [(''action'', JStr ''DELETE_CONTAINER''), (''containerNumber'', JNum 1)],
              JObject [(''action'', JStr ''CREATE_CONTAINER''), (''items'', strs [''X''])]]"
  note t = create_assigns_next_id [of ?a initial_containers ?as]
  have a: "field ?a ''action'' = JStr ''CREATE_CONTAINER''" by simp
  have i: "field ?a ''items'' = JUndefined" by simp
  have m: "(if initial_containers = [] then 1 else Max (container_id ` set initial_containers) + 1) = 3"
    by (simp add: initial_containers_def)
  have d: "distinct (map container_id initial_containers)"
    by (simp add: initial_containers_def)
  have l: "\<forall>b\<in>set ?as. field b ''action'' = JStr ''CREATE_CONTAINER''
                        \<or> field b ''action'' = JStr ''DELETE_CONTAINER''"
    by simp
  have "apply_queued (executeAction initial_containers ?a) initial_containers
          = Inr (initial_containers @ [\<lparr>container_id = 3, items = JArr []\<rparr>])"
    using t a by (simp only: m i truthy.simps if_False)
  moreover have "\<exists>cs'. execute_all initial_containers ?as = Inr cs' \<and> distinct (map container_id cs')"
    using t d l by blast
  ultimately show ?thesis by blast
qed

section \<open>Removing items\<close>

text \<open>
  C3: the claim is that \<open>UPDATE_ITEMS\<close> removes exactly the items whose lowercase form
  contains the lowercase form of at least one removal term. What the code does, on a
  container of the store that the action names: the removal step keeps exactly the items
  whose lowercase form contains the lowercase form of no removal term, in their order, and
  with no item to add that is the new list; with items to add, the kept items followed by
  the added ones are reduced to the first occurrence of every string, which also drops
  the later occurrences of an item that no removal term matches. Every other container
  stays as it is. "Tent Stand" is removed by the removal term "tent".
\<close>

theorem update_items_removes_matching:
  assumes "field a ''action'' = JStr ''UPDATE_ITEMS''"
    and "field a ''containerNumber'' = JNum n" and "n \<noteq> 0" and "n \<in> fst ` set tcs"
    and "field a ''itemsToAdd'' = opt_strs adds" and "field a ''itemsToRemove'' = opt_strs rems"
  shows "apply_queued (executeAction (typed_store tcs) a) (typed_store tcs)
     = Inr (typed_store (map (\<lambda>(i, xs).
         if i = n
         then (i, let kept = filter (\<lambda>item. \<not> removed_by (list_of rems) item) xs
                  in if list_of adds = [] then kept else first_occurrences (kept @ list_of adds))
         else (i, xs)) tcs))
     \<and> (list_of adds = [] \<longrightarrow>
          apply_queued (executeAction (typed_store tcs) a) (typed_store tcs)
            = Inr (typed_store (map (\<lambda>(i, xs).
                if i = n then (i, filter (\<lambda>item. \<not> removed_by (list_of rems) item) xs)
                else (i, xs)) tcs)))
     \<and> removed_by [''tent''] ''Tent Stand''"
proof -
  have g: "apply_queued (executeAction (typed_store tcs) a) (typed_store tcs)
     = Inr (typed_store (map (\<lambda>(i, xs).
         if i = n
         then (i, let kept = filter (\<lambda>item. \<not> removed_by (list_of rems) item) xs
                  in if list_of adds = [] then kept else first_occurrences (kept @ list_of adds))
         else (i, xs)) tcs))"
    by (rule exec_update_typed [OF assms])
  have e: "apply_queued (executeAction (typed_store tcs) a) (typed_store tcs)
            = Inr (typed_store (map (\<lambda>(i, xs).
                if i = n then (i, filter (\<lambda>item. \<not> removed_by (list_of rems) item) xs)
                else (i, xs)) tcs))" if "list_of adds = []"
    using g that by (simp add: Let_def cong: if_cong)
  have t: "removed_by [''tent''] ''Tent Stand''"
    by (simp add: removed_by_def lower_char_def)
  from g e t show ?thesis by blast
qed

theorem update_items_removes_matching_witness:
  "apply_queued (executeAction (typed_store [(1, [''Tent Stand'', ''Lantern'', ''tent pegs''])])
       (JObject [(''action'', JStr ''UPDATE_ITEMS''), (''containerNumber'', JNum 1),
                 (''itemsToRemove'', strs [''tent''])]))
     (typed_store [(1, [''Tent Stand'', ''Lantern'', ''tent pegs''])])
   = Inr (typed_store [(1, [''Lantern''])])"
proof -
  let ?a = "JObject [(''action'', JStr ''UPDATE_ITEMS''), (''containerNumber'', JNum 1),
                     (''itemsToRemove'', strs [''tent''])]"
  let ?tcs = "[(1::int, [''Tent Stand'', ''Lantern'', ''tent pegs''])]"
  have h: "field ?a ''action'' = JStr ''UPDATE_ITEMS''" "field ?a ''containerNumber'' = JNum 1"
    "(1::int) \<noteq> 0" "1 \<in> fst ` set ?tcs"
    "field ?a ''itemsToAdd'' = opt_strs None" "field ?a ''itemsToRemove'' = opt_strs (Some [''tent''])"
    by simp_all
  have l: "list_of None = []" by simp
  from update_items_removes_matching [OF h] l
  have "apply_queued (executeAction (typed_store ?tcs) ?a) (typed_store ?tcs)
          = Inr (typed_store (map (\<lambda>(i, xs).
                if i = 1 then (i, filter (\<lambda>item. \<not> removed_by (list_of (Some [''tent''])) item) xs)
                else (i, xs)) ?tcs))"
    by blast
  then show ?thesis
    by (simp add: removed_by_def lower_char_def)
qed

text \<open>A container that holds the item A twice (as \<open>CREATE_CONTAINER\<close> stored it): removing
  "zzz", which matches nothing, and adding B leaves A once.\<close>

theorem update_items_removes_duplicate_counterexample:
  "execute_all initial_containers
     [JObject [(''action'', JStr ''CREATE_CONTAINER''), (''items'', strs [''A'', ''A''])]]
     = Inr (initial_containers @ [\<lparr>container_id = 3, items = strs [''A'', ''A'']\<rparr>])
   \<and> removed_by [''zzz''] ''A'' = False
   \<and> execute_all initial_containers
     [JObject [(''action'', JStr ''CREATE_CONTAINER''), (''items'', strs [''A'', ''A''])],
      JObject [(''action'', JStr ''UPDATE_ITEMS''), (''containerNumber'', JNum 3),
               (''itemsToAdd'', strs [''B'']), (''itemsToRemove'', strs [''zzz''])]]
     = Inr (initial_containers @ [\<lparr>container_id = 3, items = strs [''A'', ''B'']\<rparr>])"
  by (simp add: executeAction_def exec_CREATE_CONTAINER_def exec_UPDATE_ITEMS_def apply_queued_def
      create_updater_def update_updater_def update_items_def newContainerId_def
      initial_containers_def find_container_def strs_def nonempty_def spread_def new_Set_def
      set_add_def same_value_def some_match_def toLowerCase_def removed_by_def lower_char_def
      Let_def)

section \<open>Adding items that are present\<close>

text \<open>
  C4: the claim is that adding an item that a container already holds leaves its item list
  unchanged, for every container. What the code does: with no removal, adding a list of
  items that is not empty gives the first occurrences of the old list followed by the
  added items, in that order; the list is unchanged when it held no duplicate and every
  added item was in it, as for \<open>["Skis"]\<close> and the added \<open>["Skis"]\<close>.
\<close>

theorem add_present_item_unchanged:
  assumes "field a ''action'' = JStr ''UPDATE_ITEMS''"
    and "field a ''containerNumber'' = JNum n" and "n \<noteq> 0" and "n \<in> fst ` set tcs"
    and "field a ''itemsToAdd'' = strs adds" and "adds \<noteq> []"
    and "field a ''itemsToRemove'' = opt_strs rems" and "list_of rems = []"
  shows "apply_queued (executeAction (typed_store tcs) a) (typed_store tcs)
           = Inr (typed_store (map (\<lambda>(i, xs).
                    if i = n then (i, first_occurrences (xs @ adds)) else (i, xs)) tcs))
       \<and> ((\<forall>(i, xs)\<in>set tcs. i = n \<longrightarrow> distinct xs \<and> set adds \<subseteq> set xs) \<longrightarrow>
            apply_queued (executeAction (typed_store tcs) a) (typed_store tcs)
              = Inr (typed_store tcs))"
proof -
  have step: "apply_queued (executeAction (typed_store tcs) a) (typed_store tcs)
           = Inr (typed_store (map (\<lambda>(i, xs).
                    if i = n then (i, first_occurrences (xs @ adds)) else (i, xs)) tcs))"
    using exec_update_typed [OF assms(1-4), of "Some adds" rems] assms(5-8)
    by (simp add: Let_def cong: if_cong)
  have same: "map (\<lambda>(i, xs). if i = n then (i, first_occurrences (xs @ adds)) else (i, xs)) tcs = tcs"
    if "\<forall>(i, xs)\<in>set tcs. i = n \<longrightarrow> distinct xs \<and> set adds \<subseteq> set xs"
  proof (rule map_idI)
    fix p assume "p \<in> set tcs"
    with that have *: "fst p = n \<longrightarrow> distinct (snd p) \<and> set adds \<subseteq> set (snd p)"
      by (cases p) auto
    have "filter (\<lambda>y. y \<notin> set xs) (first_occurrences adds) = []" if "set adds \<subseteq> set xs" for xs
      using that by (auto simp: filter_empty_conv)
    with * show "(case p of (i, xs) \<Rightarrow> if i = n then (i, first_occurrences (xs @ adds)) else (i, xs)) = p"
      by (cases p) (auto simp: first_occurrences_append first_occurrences_distinct)
  qed
  show ?thesis using step same by simp
qed

theorem add_present_item_unchanged_witness:
  "apply_queued (executeAction (typed_store [(1, [''Skis''])])
       (JObject [(''action'', JStr ''UPDATE_ITEMS''), (''containerNumber'', JNum 1),
                 (''itemsToAdd'', strs [''Skis'']), (''itemsToRemove'', strs [])]))
     (typed_store [(1, [''Skis''])])
   = Inr (typed_store [(1, [''Skis''])])"
  using add_present_item_unchanged [of
      "JObject [(''action'', JStr ''UPDATE_ITEMS''), (''containerNumber'', JNum 1),
                (''itemsToAdd'', strs [''Skis'']), (''itemsToRemove'', strs [])]"
      1 "[(1, [''Skis''])]" "[''Skis'']" "Some []"]
  by simp

text \<open>\<open>CREATE_CONTAINER\<close> stores the items it is given as they are, so a container can hold
  an item twice; adding that item again then shortens the list.\<close>

theorem add_present_item_counterexample:
  "execute_all initial_containers
     [JObject [(''action'', JStr ''CREATE_CONTAINER''), (''items'', strs [''A'', ''A''])]]
     = Inr (initial_containers @ [\<lparr>container_id = 3, items = strs [''A'', ''A'']\<rparr>])
   \<and> execute_all initial_containers
     [JObject [(''action'', JStr ''CREATE_CONTAINER''), (''items'', strs [''A'', ''A''])],
      JObject [(''action'', JStr ''UPDATE_ITEMS''), (''containerNumber'', JNum 3),
               (''itemsToAdd'', strs [''A''])]]
     = Inr (initial_containers @ [\<lparr>container_id = 3, items = strs [''A'']\<rparr>])"
  by (simp add: executeAction_def exec_CREATE_CONTAINER_def exec_UPDATE_ITEMS_def apply_queued_def
      create_updater_def update_updater_def update_items_def newContainerId_def
      initial_containers_def find_container_def strs_def nonempty_def spread_def new_Set_def
      set_add_def same_value_def Let_def)

section \<open>Exceptions during a turn\<close>




section \<open>The pending scan\<close>

text \<open>
  C6: in a state with a pending scan, the next command that is accepted starts a turn whose
  closure holds that scan, and whenever the turn ends the pending scan is cleared and
  processing is over, whatever the reply was. The turn ends unless the queued update
  function throws at the render; it ends in particular when the interpretation fails.
\<close>

theorem pending_scan_consumed:
  assumes "pendingScannedItems st = Some p" and "\<not> isProcessing st" and "\<not> trim_empty messageText"
  shows "\<exists>st1. handleSendMessage_begin now messageText st
                 = (st1, Some (SendTurn messageText (containers st) (Some p)))
           \<and> pendingScannedItems st1 = Some p
           \<and> (\<forall>now' reply st2.
                 handleSendMessage_resume now' reply messageText (containers st) (Some p) st1 = Inr st2
                 \<longrightarrow> pendingScannedItems st2 = None \<and> \<not> isProcessing st2)
           \<and> (\<forall>now' reply.
                 (\<exists>st2. handleSendMessage_resume now' reply messageText (containers st) (Some p) st1
                          = Inr st2)
                 = (\<exists>cs'. apply_queued (executeAction (containers st)
                              (interpretUserCommand messageText (containers st) (Some p) reply))
                            (containers st) = Inr cs'))
           \<and> (\<forall>now' reply. reply = Rejected \<or> reply = Unparsable \<longrightarrow>
                 (\<exists>st2. handleSendMessage_resume now' reply messageText (containers st) (Some p) st1
                          = Inr st2))"
proof -
  let ?st1 = "st\<lparr>messages := messages st @
                  [\<lparr>message_id = show_int now, sender = User,
                     message_text = messageText, isLoading = False\<rparr>,
                   \<lparr>message_id = show_int (now + 1), sender = AI,
                     message_text = ''...'', isLoading = True\<rparr>],
               isProcessing := True\<rparr>"
  have b: "handleSendMessage_begin now messageText st
             = (?st1, Some (SendTurn messageText (containers st) (Some p)))"
    using assms by (simp add: handleSendMessage_begin_def)
  have c: "containers ?st1 = containers st" by simp
  have r: "pendingScannedItems st2 = None \<and> \<not> isProcessing st2"
    if "handleSendMessage_resume now' reply messageText (containers st) (Some p) ?st1 = Inr st2"
    for now' reply st2
    using resume_fields(1,2) [OF that] by simp
  have t: "(\<exists>st2. handleSendMessage_resume now' reply messageText (containers st) (Some p) ?st1 = Inr st2)
         = (\<exists>cs'. apply_queued (executeAction (containers st)
                              (interpretUserCommand messageText (containers st) (Some p) reply))
                            (containers st) = Inr cs')" for now' reply
    using resume_Inr_iff [of now' reply messageText "containers st" "Some p" ?st1] by simp
  have f: "\<exists>st2. handleSendMessage_resume now' reply messageText (containers st) (Some p) ?st1 = Inr st2"
    if "reply = Rejected \<or> reply = Unparsable" for now' reply
    unfolding t using interpret_failure [OF that] by (simp add: executeAction_UNKNOWN)
  show ?thesis
    using b r t f assms(1) by (intro exI [of _ ?st1]) simp
qed

theorem pending_scan_consumed_witness:
  "\<exists>st1. handleSendMessage_begin 1000 ''only the remote''
            (initial_state\<lparr>pendingScannedItems :=
               Some \<lparr>containerId = 2, pending_items = strs [''Remote'', ''Box'']\<rparr>\<rparr>)
          = (st1, Some (SendTurn ''only the remote'' initial_containers
                          (Some \<lparr>containerId = 2, pending_items = strs [''Remote'', ''Box'']\<rparr>)))
       \<and> (\<exists>st2. handleSendMessage_resume 2000 Unparsable ''only the remote'' initial_containers
                   (Some \<lparr>containerId = 2, pending_items = strs [''Remote'', ''Box'']\<rparr>) st1 = Inr st2
              \<and> pendingScannedItems st2 = None)"
proof -
  let ?p = "\<lparr>containerId = 2, pending_items = strs [''Remote'', ''Box'']\<rparr>"
  let ?st = "initial_state\<lparr>pendingScannedItems := Some ?p\<rparr>"
  have h: "pendingScannedItems ?st = Some ?p" "\<not> isProcessing ?st" "\<not> trim_empty ''only the remote''"
    "containers ?st = initial_containers"
    by (simp_all add: initial_state_def trim_empty_def is_whitespace_def)
  from pending_scan_consumed [OF h(1-3), of 1000] show ?thesis
    unfolding h(4) by blast
qed

section \<open>One turn at a time\<close>

text \<open>
  C7: while \<open>isProcessing\<close> holds, \<open>handleSendMessage\<close> changes nothing and leaves nothing in
  flight (no message, no call of the interpreter, the same store and pending scan); and in
  every reachable state at most one turn is in flight, \<open>isProcessing\<close> holds exactly when
  one is, and its closure holds the current store and pending scan.
\<close>

theorem second_send_is_noop:
  "(isProcessing st \<longrightarrow> handleSendMessage_begin now messageText st = (st, None))
   \<and> (reachable st ts \<longrightarrow>
        length ts \<le> 1 \<and> (isProcessing st = (ts \<noteq> [])) \<and> list_all (snapshot_current st) ts)"
  using reachable_invariant [of st ts]
  by (simp add: handleSendMessage_begin_def turn_invariant_def)

theorem second_send_is_noop_witness:
  "isProcessing (fst (handleSendMessage_begin 1000 ''list everything'' initial_state))
   \<and> handleSendMessage_begin 2000 ''list everything''
        (fst (handleSendMessage_begin 1000 ''list everything'' initial_state))
      = (fst (handleSendMessage_begin 1000 ''list everything'' initial_state), None)
   \<and> reachable (fst (handleSendMessage_begin 1000 ''list everything'' initial_state))
        [SendTurn ''list everything'' initial_containers None]
   \<and> length [SendTurn ''list everything'' initial_containers None] \<le> 1"
proof -
  let ?st1 = "fst (handleSendMessage_begin 1000 ''list everything'' initial_state)"
  let ?ts = "[SendTurn ''list everything'' initial_containers None]"
  have b: "handleSendMessage_begin 1000 ''list everything'' initial_state
             = (?st1, Some (SendTurn ''list everything'' initial_containers None))"
    by (simp add: handleSendMessage_begin_def initial_state_def trim_empty_def is_whitespace_def)
  have p: "isProcessing ?st1"
    by (simp add: handleSendMessage_begin_def initial_state_def trim_empty_def is_whitespace_def)
  have r: "reachable ?st1 ?ts"
    using reachable.send [OF reachable.start b] by simp
  from second_send_is_noop [of ?st1 2000 "''list everything''" ?ts] p r show ?thesis
    by simp
qed

section \<open>Listing all containers\<close>

text \<open>
  C8: \<open>LIST_ALL_CONTAINERS\<close> on the empty store returns exactly
  "You don't have any containers yet."; on the store that holds the one container 1 with
  the items A and B, the returned string contains "Container #1: A, B".
\<close>

theorem list_all_containers_text:
  "returned (executeAction [] (JObject [(''action'', JStr ''LIST_ALL_CONTAINERS'')]))
     = Inr ''You don't have any containers yet.''
   \<and> returned (executeAction [\<lparr>container_id = 1, items = JArr [JStr ''A'', JStr ''B'']\<rparr>]
                   (JObject [(''action'', JStr ''LIST_ALL_CONTAINERS'')]))
     = Inr ''Here's what's in all your containers:\<newline>\<newline>Container #1: A, B''
   \<and> str_includes ''Here's what's in all your containers:\<newline>\<newline>Container #1: A, B''
         ''Container #1: A, B''"
  by (simp add: executeAction_def exec_LIST_ALL_CONTAINERS_def respond_def join_def
      element_string_def show_int_def show_nat.simps digit_def)

section \<open>Creating, then listing\<close>

text \<open>
  C9: in every store whose ids are positive, executing \<open>CREATE_CONTAINER\<close> with the one
  item x and then \<open>LIST_ITEMS\<close> with the id just assigned returns
  "Container N contains: x.", N being that id.
\<close>

theorem create_then_list_items:
  assumes "\<forall>c\<in>set cs. 0 < container_id c"
    and "field a ''action'' = JStr ''CREATE_CONTAINER''" and "field a ''items'' = strs [x]"
    and "field b ''action'' = JStr ''LIST_ITEMS''"
    and "field b ''containerNumber'' = JNum (newContainerId cs)"
  shows "\<exists>cs'. apply_queued (executeAction cs a) cs = Inr cs'
            \<and> returned (executeAction cs' b)
                = Inr (''Container '' @ show_int (newContainerId cs) @ '' contains: '' @ x @ ''.'')"
proof -
  let ?n = "newContainerId cs"
  let ?new = "\<lparr>container_id = ?n, items = strs [x]\<rparr>"
  have step: "apply_queued (executeAction cs a) cs = Inr (cs @ [?new])"
    using apply_queued_create [OF assms(2), of cs] assms(3) by (simp add: strs_def)
  have pos: "?n \<noteq> 0"
  proof (cases cs)
    case Nil
    then show ?thesis by (simp add: newContainerId_def)
  next
    case (Cons c cs0)
    then have "0 < container_id c" "container_id c < ?n"
      using assms(1) newContainerId_fresh [of c cs] by auto
    then show ?thesis by simp
  qed
  have fresh: "\<forall>c\<in>set cs. container_id c \<noteq> ?n"
    using newContainerId_fresh [of _ cs] by fastforce
  have found: "find_container (cs @ [?new]) (JNum ?n) = Some ?new"
    using find_append_None [of "\<lambda>c. JNum (container_id c) = JNum ?n" cs "[?new]"] fresh
    by (simp add: find_container_def find_None_iff)
  have nv: "b \<noteq> JValue JNull" "b \<noteq> JValue JUndefined"
    using assms(4) by (cases b; simp)+
  have "returned (executeAction (cs @ [?new]) b)
          = Inr (''Container '' @ show_int ?n @ '' contains: '' @ x @ ''.'')"
    using assms(4,5) nv pos found
    by (simp add: executeAction_def exec_LIST_ITEMS_def Let_def strs_def join_def element_string_def)
  with step show ?thesis by blast
qed

theorem create_then_list_items_witness:
  "\<exists>cs'. apply_queued (executeAction initial_containers
             (JObject [(''action'', JStr ''CREATE_CONTAINER''), (''items'', strs [''X''])]))
           initial_containers = Inr cs'
       \<and> returned (executeAction cs'
             (JObject [(''action'', JStr ''LIST_ITEMS''), (''containerNumber'', JNum 3)]))
           = Inr ''Container 3 contains: X.''"
  using create_then_list_items [of initial_containers
      "JObject [(''action'', JStr ''CREATE_CONTAINER''), (''items'', strs [''X''])]" "''X''"
      "JObject [(''action'', JStr ''LIST_ITEMS''), (''containerNumber'', JNum 3)]"]
  by (simp add: initial_containers_def newContainerId_def show_int_def show_nat.simps digit_def)

section \<open>Clearing a container that does not exist\<close>

text \<open>
  C10: the claim is that for every container number N that is not in the store,
  \<open>CLEAR_CONTAINER\<close> changes no container and still answers "Container N has been
  cleared.", where the other actions report that the container was not found. What the
  code does: this holds for every N other than 0; the number 0 is falsy, and
  \<open>CLEAR_CONTAINER\<close> with it leaves the initial response.
\<close>

theorem clear_absent_container_confirms:
  assumes "n \<noteq> 0" and "\<forall>c\<in>set cs. container_id c \<noteq> n"
    and "field clear ''action'' = JStr ''CLEAR_CONTAINER''" and "field clear ''containerNumber'' = JNum n"
    and "field upd ''action'' = JStr ''UPDATE_ITEMS''" and "field upd ''containerNumber'' = JNum n"
    and "field lst ''action'' = JStr ''LIST_ITEMS''" and "field lst ''containerNumber'' = JNum n"
    and "field del ''action'' = JStr ''DELETE_CONTAINER''" and "field del ''containerNumber'' = JNum n"
  shows "apply_queued (executeAction cs clear) cs = Inr cs
       \<and> returned (executeAction cs clear) = Inr (''Container '' @ show_int n @ '' has been cleared.'')
       \<and> executeAction cs upd = respond (''Sorry, I couldn't find container '' @ show_int n @ ''.'')
       \<and> executeAction cs lst = respond (''Sorry, I couldn't find container '' @ show_int n @ ''.'')
       \<and> executeAction cs del = respond (''Sorry, I couldn't find container #'' @ show_int n @ '' to delete.'')"
proof -
  have nv: "a \<noteq> JValue JNull \<and> a \<noteq> JValue JUndefined" if "field a ''containerNumber'' = JNum n" for a
    using that by (cases a) simp_all
  have none: "find_container cs (JNum n) = None"
    using assms(2) by (rule find_container_None)
  have same: "map (\<lambda>c. if container_id c = n then c\<lparr>items := JArr []\<rparr> else c) cs = cs"
    using assms(2) by (induction cs) auto
  have nex: "\<not> list_ex (\<lambda>c. container_id c = n) cs"
    using assms(2) by (simp add: list_ex_iff)
  have 1: "apply_queued (executeAction cs clear) cs = Inr cs
       \<and> returned (executeAction cs clear) = Inr (''Container '' @ show_int n @ '' has been cleared.'')"
    using assms(1,3,4) nv [OF assms(4)] same
    by (simp add: executeAction_def exec_CLEAR_CONTAINER_def apply_queued_def clear_updater_def Let_def)
  have 2: "executeAction cs upd = respond (''Sorry, I couldn't find container '' @ show_int n @ ''.'')"
    using assms(1,5,6) nv [OF assms(6)] none
    by (simp add: executeAction_def exec_UPDATE_ITEMS_def Let_def)
  have 3: "executeAction cs lst = respond (''Sorry, I couldn't find container '' @ show_int n @ ''.'')"
    using assms(1,7,8) nv [OF assms(8)] none
    by (simp add: executeAction_def exec_LIST_ITEMS_def Let_def)
  have 4: "executeAction cs del = respond (''Sorry, I couldn't find container #'' @ show_int n @ '' to delete.'')"
    using assms(1,9,10) nv [OF assms(10)] nex
    by (simp add: executeAction_def exec_DELETE_CONTAINER_def Let_def)
  from 1 2 3 4 show ?thesis by blast
qed

theorem clear_absent_container_confirms_witness:
  "apply_queued (executeAction initial_containers
        (JObject [(''action'', JStr ''CLEAR_CONTAINER''), (''containerNumber'', JNum 7)]))
      initial_containers = Inr initial_containers
   \<and> returned (executeAction initial_containers
        (JObject [(''action'', JStr ''CLEAR_CONTAINER''), (''containerNumber'', JNum 7)]))
      = Inr ''Container 7 has been cleared.''
   \<and> executeAction initial_containers
        (JObject [(''action'', JStr ''UPDATE_ITEMS''), (''containerNumber'', JNum 7),
                  (''itemsToAdd'', strs [''Skis''])])
      = respond ''Sorry, I couldn't find container 7.''
   \<and> executeAction initial_containers
        (JObject [(''action'', JStr ''LIST_ITEMS''), (''containerNumber'', JNum 7)])
      = respond ''Sorry, I couldn't find container 7.''
   \<and> executeAction initial_containers
        (JObject [(''action'', JStr ''DELETE_CONTAINER''), (''containerNumber'', JNum 7)])
      = respond ''Sorry, I couldn't find container #7 to delete.''"
proof -
  have s: "show_int 7 = ''7''"
    by (simp add: show_int_def show_nat.simps digit_def)
  have h: "(7::int) \<noteq> 0" "\<forall>c\<in>set initial_containers. container_id c \<noteq> 7"
    by (simp_all add: initial_containers_def)
  from clear_absent_container_confirms [OF h, of
      "JObject [(''action'', JStr ''CLEAR_CONTAINER''), (''containerNumber'', JNum 7)]"
      "JObject [(''action'', JStr ''UPDATE_ITEMS''), (''containerNumber'', JNum 7),
                (''itemsToAdd'', strs [''Skis''])]"
      "JObject [(''action'', JStr ''LIST_ITEMS''), (''containerNumber'', JNum 7)]"
      "JObject [(''action'', JStr ''DELETE_CONTAINER''), (''containerNumber'', JNum 7)]"]
  show ?thesis by (simp add: s)
qed

text \<open>No container has the number 0, and clearing it is answered with the initial response.\<close>

theorem clear_container_zero_counterexample:
  "find_container initial_containers (JNum 0) = None
   \<and> returned (executeAction initial_containers
         (JObject [(''action'', JStr ''CLEAR_CONTAINER''), (''containerNumber'', JNum 0)]))
       = Inr ''Sorry, I couldn't perform that action.''
   \<and> returned (executeAction initial_containers
         (JObject [(''action'', JStr ''CLEAR_CONTAINER''), (''containerNumber'', JNum 0)]))
       \<noteq> Inr (''Container '' @ show_int 0 @ '' has been cleared.'')"
  by (simp add: executeAction_def exec_CLEAR_CONTAINER_def respond_def find_container_def
      initial_containers_def)

end
